theory Spec2Isabelle
  imports Complex_Main "HOL-Library.Sublist"
begin

section \<open>Text\<close>

text \<open>
  Cell text is modelled as \<open>string\<close>, one \<open>char\<close> per character, and the character
  classes of the scripts (\<^verbatim>\<open>str.lower\<close>, \<^verbatim>\<open>str.isdigit\<close>, the case-insensitive
  \<^verbatim>\<open>str.contains\<close>) are the ASCII ones: letters \<open>A\<close> to \<open>Z\<close> are lowered, the digits
  are \<open>0\<close> to \<open>9\<close>.
\<close>

datatype error = IndexError

definition lower_char :: "char \<Rightarrow> char" where
  "lower_char c =
     (case map_of (zip ''ABCDEFGHIJKLMNOPQRSTUVWXYZ'' ''abcdefghijklmnopqrstuvwxyz'') c of
        None \<Rightarrow> c
      | Some l \<Rightarrow> l)"

definition lower :: "string \<Rightarrow> string" where
  "lower s = map lower_char s"

definition isdigit :: "char \<Rightarrow> bool" where
  "isdigit c = (c \<in> set ''0123456789'')"

text \<open>Python's \<^verbatim>\<open>sub in s\<close> on strings: \<open>sub\<close> occurs in \<open>s\<close> as a contiguous run.\<close>

definition contains :: "string \<Rightarrow> string \<Rightarrow> bool" where
  "contains sub s = sublist sub s"

text \<open>\<^verbatim>\<open>Series.str.cat(sep=...)\<close>: the cells of a row joined by the separator.\<close>

fun str_cat :: "string \<Rightarrow> string list \<Rightarrow> string" where
  "str_cat sep [] = []"
| "str_cat sep [c] = c"
| "str_cat sep (c # d # cs) = c @ sep @ str_cat sep (d # cs)"

section \<open>Data frames\<close>

text \<open>
  A data frame read with \<^verbatim>\<open>header=None\<close> and converted with \<^verbatim>\<open>astype(str)\<close> is a
  grid of text cells whose row and column labels are the positions \<open>0, 1, ...\<close>. The
  column count is kept beside the rows, since a frame without rows still has one.
\<close>

record dataframe =
  ncols :: nat
  rows :: "string list list"


text \<open>\<^verbatim>\<open>df.iloc[i]\<close>: a negative position counts from the end, a position outside the
  frame raises.\<close>

definition iloc :: "dataframe \<Rightarrow> int \<Rightarrow> error + string list" where
  "iloc d i =
     (let len = int (length (rows d));
          pos = (if i < 0 then i + len else i)
      in if pos < 0 \<or> len \<le> pos then Inl IndexError else Inr (rows d ! nat pos))"

text \<open>\<^verbatim>\<open>df.iloc[start:stop]\<close>: both bounds are clipped to the frame, and the slice is
  empty when the clipped start is not below the clipped stop.\<close>

definition slice_bound :: "nat \<Rightarrow> int \<Rightarrow> nat" where
  "slice_bound len i = (if i < 0 then nat (max 0 (int len + i)) else min len (nat i))"

definition iloc_slice :: "dataframe \<Rightarrow> int \<Rightarrow> int \<Rightarrow> dataframe" where
  "iloc_slice d start stop =
     d\<lparr>rows := drop (slice_bound (length (rows d)) start)
                 (take (slice_bound (length (rows d)) stop) (rows d))\<rparr>"

definition row_text :: "string list \<Rightarrow> string" where
  "row_text r = lower (str_cat '' '' r)"

section \<open>The table splitter\<close>

text \<open>\<^verbatim>\<open>range(start, stop, -1)\<close>: \<open>start, start - 1, ...\<close>, ending above \<open>stop\<close>.\<close>

definition range_down :: "int \<Rightarrow> int \<Rightarrow> int list" where
  "range_down start stop = map (\<lambda>k. start - int k) [0..<nat (start - stop)]"

definition is_title_text :: "string \<Rightarrow> bool" where
  "is_title_text t =
     (if contains ''psd table'' t then True
      else if contains ''trade matrix'' t then True
      else if contains ''prices table'' t then True
      else False)"

text \<open>The body of the backward loop of \<^verbatim>\<open>find_true_table_start\<close>: \<open>Some i\<close> is the
  early return at row \<open>i\<close>, \<open>None\<close> the end of the loop.\<close>

fun scan_upwards :: "dataframe \<Rightarrow> int list \<Rightarrow> error + int option" where
  "scan_upwards d [] = Inr None"
| "scan_upwards d (i # js) =
     (case iloc d i of
        Inl e \<Rightarrow> Inl e
      | Inr r \<Rightarrow> if is_title_text (row_text r) then Inr (Some i) else scan_upwards d js)"

definition find_true_table_start :: "dataframe \<Rightarrow> int \<Rightarrow> error + int" where
  "find_true_table_start d commodity_idx =
     (let limit = max 0 (commodity_idx - 15) in
      case scan_upwards d (range_down commodity_idx (limit - 1)) of
        Inl e \<Rightarrow> Inl e
      | Inr (Some i) \<Rightarrow> Inr i
      | Inr None \<Rightarrow> Inr (max 0 (commodity_idx - 2)))"

text \<open>The anchor mask: a row is marked when one of its cells contains the word, in
  any case.\<close>

definition is_commodity_row :: "string list \<Rightarrow> bool" where
  "is_commodity_row r = list_ex (\<lambda>cell. contains ''commodity'' (lower cell)) r"

definition commodity_indices :: "dataframe \<Rightarrow> int list" where
  "commodity_indices d =
     map int (filter (\<lambda>i. is_commodity_row (rows d ! i)) [0..<length (rows d)])"

fun collect_starts :: "dataframe \<Rightarrow> int list \<Rightarrow> error + int list" where
  "collect_starts d [] = Inr []"
| "collect_starts d (idx # idxs) =
     (case find_true_table_start d idx of
        Inl e \<Rightarrow> Inl e
      | Inr true_start \<Rightarrow>
          (case collect_starts d idxs of
             Inl e \<Rightarrow> Inl e
           | Inr table_starts \<Rightarrow> Inr (true_start # table_starts)))"

text \<open>The span cut in the \<open>i\<close>-th round of the slicing loop, \<open>i\<close> below the number of
  starts: the start is forced to \<open>0\<close> in the first round, the end is the next start
  or the length of the frame.\<close>

definition table_span :: "int list \<Rightarrow> int \<Rightarrow> nat \<Rightarrow> int \<times> int" where
  "table_span table_starts len i =
     (let current_start = table_starts ! i;
          current_end = (if i + 1 < length table_starts then table_starts ! (i + 1) else len);
          current_start = (if i = 0 then 0 else current_start)
      in (current_start, current_end))"

definition table_spans :: "int list \<Rightarrow> int \<Rightarrow> (int \<times> int) list" where
  "table_spans table_starts len = map (table_span table_starts len) [0..<length table_starts]"

definition split_mixed_tables :: "dataframe \<Rightarrow> error + dataframe list" where
  "split_mixed_tables d =
     (if commodity_indices d = [] then Inr [d]
      else case collect_starts d (commodity_indices d) of
             Inl e \<Rightarrow> Inl e
           | Inr table_starts \<Rightarrow>
               Inr (map (\<lambda>(current_start, current_end). iloc_slice d current_start current_end)
                      (table_spans table_starts (int (length (rows d))))))"

text \<open>A sheet with two tables: the first anchor (row 3) resolves to the title in row 2,
  the second (row 6) to the title in row 5.\<close>

definition two_tables :: dataframe where
  "two_tables =
     \<lparr>ncols = 2,
      rows = [[''Report'', ''''], [''2023'', ''''], [''PSD Table'', ''''],
              [''Country'', ''Commodity: Rice''], [''Brazil'', ''10''],
              [''Trade Matrix'', ''''], [''Commodity: Corn'', ''Year''], [''Chile'', ''7'']]\<rparr>"

section \<open>Segmentation: the spans partition the rows\<close>

lemma iloc_in_range: "0 \<le> i \<Longrightarrow> i < int (length (rows d)) \<Longrightarrow> iloc d i = Inr (rows d ! nat i)"
  by (simp add: iloc_def)

lemma set_range_down: "set (range_down a b) = {k. b < k \<and> k \<le> a}"
  apply (auto simp: range_down_def)
  subgoal for k by (rule image_eqI[where x="nat (a - k)"]) auto
  done

text \<open>The title markers, and the rows that carry one: the cells of the row joined by
  single spaces and lowered contain a marker.\<close>

definition title_markers :: "string list" where
  "title_markers = [''psd table'', ''trade matrix'', ''prices table'']"

definition title_row :: "dataframe \<Rightarrow> int \<Rightarrow> bool" where
  "title_row d k =
     (\<exists>m\<in>set title_markers. contains m (lower (str_cat '' '' (rows d ! nat k))))"

lemma is_title_text_iff: "is_title_text t \<longleftrightarrow> (\<exists>m\<in>set title_markers. contains m t)"
  by (simp add: is_title_text_def title_markers_def)

lemma scan_upwards_find:
  "\<forall>i\<in>set js. 0 \<le> i \<and> i < int (length (rows d)) \<Longrightarrow>
   scan_upwards d js = Inr (List.find (title_row d) js)"
  by (induction js) (auto simp: iloc_in_range title_row_def is_title_text_iff row_text_def)

lemma range_down_rec: "b < a \<Longrightarrow> range_down a b = a # range_down (a - 1) b"
proof -
  assume ba: "b < a"
  then have n: "nat (a - b) = Suc (nat (a - 1 - b))" by simp
  show ?thesis
    unfolding range_down_def n
    by (simp add: upt_conv_Cons map_Suc_upt[symmetric] del: upt_Suc)
qed

lemma range_down_empty: "a \<le> b \<Longrightarrow> range_down a b = []"
  by (simp add: range_down_def)

lemma find_range_down_Some:
  "List.find P (range_down a b) = Some j \<longleftrightarrow> (b < j \<and> j \<le> a \<and> P j \<and> (\<forall>k. j < k \<and> k \<le> a \<longrightarrow> \<not> P k))"
proof (induction "nat (a - b)" arbitrary: a)
  case 0
  then show ?case by (auto simp: range_down_empty)
next
  case (Suc n)
  then have ba: "b < a" and n: "n = nat (a - 1 - b)" by auto
  show ?case
    unfolding range_down_rec[OF ba]
    using Suc(1)[OF n] ba
    by (auto simp: order_le_less)
qed

lemma find_range_down_None:
  "List.find P (range_down a b) = None \<longleftrightarrow> (\<forall>k. b < k \<and> k \<le> a \<longrightarrow> \<not> P k)"
  by (auto simp: find_None_iff set_range_down)

text \<open>The value \<^verbatim>\<open>find_true_table_start\<close> returns at a row of the frame.\<close>

definition true_start :: "dataframe \<Rightarrow> int \<Rightarrow> int" where
  "true_start d i =
     (case List.find (title_row d) (range_down i (max 0 (i - 15) - 1)) of
        Some j \<Rightarrow> j | None \<Rightarrow> max 0 (i - 2))"

lemma find_true_table_start_eq:
  assumes "0 \<le> i" "i < int (length (rows d))"
  shows "find_true_table_start d i = Inr (true_start d i)"
proof -
  have "\<forall>k\<in>set (range_down i (max 0 (i - 15) - 1)). 0 \<le> k \<and> k < int (length (rows d))"
    using assms by (auto simp: set_range_down)
  from scan_upwards_find[OF this] show ?thesis
    by (simp add: find_true_table_start_def true_start_def split: option.splits)
qed

lemma true_start_cases:
  "(\<exists>j. max 0 (i - 15) \<le> j \<and> j \<le> i \<and> title_row d j \<and> (\<forall>k. j < k \<and> k \<le> i \<longrightarrow> \<not> title_row d k) \<and> true_start d i = j)
   \<or> ((\<forall>k. max 0 (i - 15) \<le> k \<and> k \<le> i \<longrightarrow> \<not> title_row d k) \<and> true_start d i = max 0 (i - 2))"
proof (cases "List.find (title_row d) (range_down i (max 0 (i - 15) - 1))")
  case None
  then have "\<forall>k. max 0 (i - 15) \<le> k \<and> k \<le> i \<longrightarrow> \<not> title_row d k"
    by (auto simp: find_range_down_None)
  then show ?thesis
    by (simp add: true_start_def None)
next
  case (Some j)
  then have "max 0 (i - 15) \<le> j \<and> j \<le> i \<and> title_row d j \<and> (\<forall>k. j < k \<and> k \<le> i \<longrightarrow> \<not> title_row d k)"
    by (auto simp: find_range_down_Some)
  then show ?thesis
    by (simp add: true_start_def Some)
qed

lemma true_start_bounds: "0 \<le> i \<Longrightarrow> 0 \<le> true_start d i \<and> true_start d i \<le> i"
  using true_start_cases[of i d] by auto

lemma true_start_mono:
  assumes "0 \<le> a" "a \<le> b"
  shows "true_start d a \<le> true_start d b"
  using true_start_cases[of a d] true_start_cases[of b d] assms
  by (elim disjE exE conjE) auto

lemma collect_starts_eq:
  "\<forall>i\<in>set idxs. 0 \<le> i \<and> i < int (length (rows d)) \<Longrightarrow>
   collect_starts d idxs = Inr (map (true_start d) idxs)"
  by (induction idxs) (auto simp: find_true_table_start_eq)

lemma commodity_indices_range:
  "i \<in> set (commodity_indices d) \<Longrightarrow> 0 \<le> i \<and> i < int (length (rows d))"
  by (auto simp: commodity_indices_def)

lemma commodity_indices_sorted: "sorted (commodity_indices d)"
  unfolding commodity_indices_def
  by (simp add: sorted_map sorted_wrt_filter)

lemma table_spans_Cons:
  "table_spans (s0 # rest) len = zip (0 # rest) (rest @ [len])"
proof (rule nth_equalityI)
  show "length (table_spans (s0 # rest) len) = length (zip (0 # rest) (rest @ [len]))"
    by (simp add: table_spans_def)
next
  fix i assume "i < length (table_spans (s0 # rest) len)"
  then have i: "i < Suc (length rest)" by (simp add: table_spans_def)
  then have "table_spans (s0 # rest) len ! i = table_span (s0 # rest) len i"
    unfolding table_spans_def by (simp del: upt_Suc)
  also have "\<dots> = zip (0 # rest) (rest @ [len]) ! i"
    using i by (cases i) (auto simp: table_span_def nth_append)
  finally show "table_spans (s0 # rest) len ! i = zip (0 # rest) (rest @ [len]) ! i" .
qed

lemma take_drop_join:
  assumes "a \<le> b" "b \<le> c"
  shows "drop a (take b xs) @ drop b (take c xs) = drop a (take c xs)"
proof -
  obtain k where c: "c = b + k" using assms(2) by (auto simp: le_iff_add)
  show ?thesis
  proof (cases "b \<le> length xs")
    case True
    with assms(1) show ?thesis by (simp add: c take_add drop_take min_def)
  next
    case False
    then show ?thesis by (simp add: c take_add)
  qed
qed

lemma concat_cuts:
  "sorted (a # rest @ [c]) \<Longrightarrow>
   concat (map (\<lambda>(s, e). drop (nat s) (take (nat e) xs)) (zip (a # rest) (rest @ [c])))
     = drop (nat a) (take (nat c) xs)"
proof (induction rest arbitrary: a)
  case Nil
  then show ?case by simp
next
  case (Cons b rest)
  then have "nat a \<le> nat b" "nat b \<le> nat c" "sorted (b # rest @ [c])" by auto
  with Cons.IH[of b] show ?case by (simp add: take_drop_join)
qed

lemma rows_iloc_slice:
  "0 \<le> s \<Longrightarrow> s \<le> int (length (rows d)) \<Longrightarrow> 0 \<le> e \<Longrightarrow> e \<le> int (length (rows d)) \<Longrightarrow>
   rows (iloc_slice d s e) = drop (nat s) (take (nat e) (rows d))"
  by (simp add: iloc_slice_def slice_bound_def min_def)

lemma slice_bound_nonneg: "0 \<le> i \<Longrightarrow> slice_bound len i = min len (nat i)"
  by (simp add: slice_bound_def)

text \<open>
  Claim C1. For every grid, \<^verbatim>\<open>split_mixed_tables\<close> returns without raising, and the
  sub-tables it returns are the slices of the grid at a list of spans that starts at
  row 0, ends at the row count, has every span end where the next one starts and no span
  end before its start: the spans partition the rows with no gap and no overlap. The rows
  of the sub-tables, concatenated in order, are the rows of the grid.
\<close>

theorem split_mixed_tables_partition:
  "\<exists>tables spans.
     split_mixed_tables d = Inr tables
     \<and> tables = map (\<lambda>(s, e). iloc_slice d s e) spans
     \<and> concat (map rows tables) = rows d
     \<and> spans \<noteq> []
     \<and> fst (hd spans) = 0
     \<and> snd (last spans) = int (length (rows d))
     \<and> (\<forall>k. Suc k < length spans \<longrightarrow> snd (spans ! k) = fst (spans ! Suc k))
     \<and> (\<forall>k < length spans. 0 \<le> fst (spans ! k) \<and> fst (spans ! k) \<le> snd (spans ! k)
            \<and> snd (spans ! k) \<le> int (length (rows d)))"
proof (cases "commodity_indices d = []")
  case True
  show ?thesis
    apply (rule exI[of _ "[d]"], rule exI[of _ "[(0, int (length (rows d)))]"])
    apply (simp add: split_mixed_tables_def True iloc_slice_def slice_bound_def)
    done
next
  case False
  define n where "n = length (rows d)"
  define starts where "starts = map (true_start d) (commodity_indices d)"
  define spans where "spans = table_spans starts (int n)"
  have cs: "collect_starts d (commodity_indices d) = Inr starts"
    unfolding starts_def using commodity_indices_range[of _ d] by (intro collect_starts_eq) auto
  obtain s0 rest where sr: "starts = s0 # rest"
    using False by (cases starts) (auto simp: starts_def)
  have spans_zip: "spans = zip (0 # rest) (rest @ [int n])"
    by (simp add: spans_def sr table_spans_Cons)
  have sorted_starts: "sorted starts"
    unfolding starts_def sorted_map
    using commodity_indices_sorted[of d] commodity_indices_range[of _ d]
    by (auto intro!: sorted_wrt_mono_rel[where P="(\<le>)"] true_start_mono)
  have starts_range: "\<forall>s\<in>set starts. 0 \<le> s \<and> s < int n"
    unfolding starts_def n_def
    using commodity_indices_range[of _ d] true_start_bounds[of _ d] by fastforce
  have sorted_cuts: "sorted (0 # rest @ [int n])"
    using sorted_starts starts_range
    by (auto simp: sr sorted_append)
  have len: "length spans = Suc (length rest)" by (simp add: spans_zip)
  have ne: "spans \<noteq> []" by (simp add: spans_zip)
  have nth: "spans ! k = ((0 # rest) ! k, (rest @ [int n]) ! k)" if "k < Suc (length rest)" for k
    using that by (simp add: spans_zip)
  have cuts_range: "\<forall>s\<in>set (0 # rest @ [int n]). 0 \<le> s \<and> s \<le> int n"
    using starts_range by (auto simp: sr)
  have span_range: "0 \<le> s \<and> s \<le> int n \<and> 0 \<le> e \<and> e \<le> int n" if "(s, e) \<in> set spans" for s e
    using that cuts_range set_zip_leftD[of s e "0 # rest" "rest @ [int n]"]
      set_zip_rightD[of s e "0 # rest" "rest @ [int n]"]
    by (auto simp: spans_zip)
  have mapeq: "map rows (map (\<lambda>(s, e). iloc_slice d s e) spans)
          = map (\<lambda>(s, e). drop (nat s) (take (nat e) (rows d))) spans"
    using span_range by (auto simp: rows_iloc_slice n_def)
  have "concat (map (\<lambda>(s, e). drop (nat s) (take (nat e) (rows d))) spans) = rows d"
    using concat_cuts[OF sorted_cuts, of "rows d"] by (simp add: spans_zip n_def)
  then have conc: "concat (map rows (map (\<lambda>(s, e). iloc_slice d s e) spans)) = rows d"
    by (simp only: mapeq)
  have adj: "snd (spans ! k) = fst (spans ! Suc k)" if "Suc k < length spans" for k
    using that by (simp add: len nth nth_append)
  have ord: "0 \<le> fst (spans ! k) \<and> fst (spans ! k) \<le> snd (spans ! k) \<and> snd (spans ! k) \<le> int n"
    if "k < length spans" for k
  proof -
    have k: "k < Suc (length rest)" using that by (simp add: len)
    have "(0 # rest @ [int n]) ! k \<le> (0 # rest @ [int n]) ! Suc k"
      using sorted_cuts k by (intro sorted_nth_mono) auto
    moreover have "(0 # rest @ [int n]) ! Suc k = (rest @ [int n]) ! k" by simp
    moreover have "(0 # rest @ [int n]) ! k = (0 # rest) ! k"
      using k by (metis append_Cons length_Cons nth_append)
    moreover have "spans ! k \<in> set spans" using that by simp
    ultimately show ?thesis
      using span_range[of "fst (spans ! k)" "snd (spans ! k)"] by (simp add: nth[OF k])
  qed
  show ?thesis
    apply (rule exI[of _ "map (\<lambda>(s, e). iloc_slice d s e) spans"], rule exI[of _ spans])
    apply (intro conjI)
    subgoal by (simp add: split_mixed_tables_def False cs spans_def n_def)
    subgoal by simp
    subgoal by (rule conc)
    subgoal by (simp add: spans_zip)
    subgoal using nth[of 0] by (simp add: hd_conv_nth[OF ne])
    subgoal using nth[of "length rest"] by (simp add: last_conv_nth[OF ne] len n_def)
    subgoal using adj by blast
    subgoal using ord by (simp add: n_def)
    done
qed


theorem split_mixed_tables_partition_witness:
  "split_mixed_tables two_tables = Inr [iloc_slice two_tables 0 5, iloc_slice two_tables 5 8]
   \<and> (\<exists>tables spans.
     split_mixed_tables two_tables = Inr tables
     \<and> tables = map (\<lambda>(s, e). iloc_slice two_tables s e) spans
     \<and> concat (map rows tables) = rows two_tables
     \<and> spans \<noteq> []
     \<and> fst (hd spans) = 0
     \<and> snd (last spans) = int (length (rows two_tables))
     \<and> (\<forall>k. Suc k < length spans \<longrightarrow> snd (spans ! k) = fst (spans ! Suc k))
     \<and> (\<forall>k < length spans. 0 \<le> fst (spans ! k) \<and> fst (spans ! k) \<le> snd (spans ! k)
            \<and> snd (spans ! k) \<le> int (length (rows two_tables))))"
proof
  show "split_mixed_tables two_tables = Inr [iloc_slice two_tables 0 5, iloc_slice two_tables 5 8]"
    by code_simp
qed (rule split_mixed_tables_partition)

text \<open>
  Claim C5. When the grid has an anchor row, \<^verbatim>\<open>split_mixed_tables\<close> returns a
  non-empty list whose first sub-table is the slice of the grid from row 0 to the end of
  the first span, so its rows are the first rows of the grid. The start of the first span
  is 0 for every list of resolved starts, wherever the first of them lies.
\<close>

theorem first_table_begins_at_row_0:
  assumes "commodity_indices d \<noteq> []"
  shows "\<exists>table_starts tables.
           collect_starts d (commodity_indices d) = Inr table_starts
           \<and> split_mixed_tables d = Inr tables
           \<and> tables \<noteq> []
           \<and> hd tables = iloc_slice d 0 (snd (table_span table_starts (int (length (rows d))) 0))
           \<and> prefix (rows (hd tables)) (rows d)
           \<and> (\<forall>starts len. fst (table_span starts len 0) = 0)"
proof -
  define starts where "starts = map (true_start d) (commodity_indices d)"
  let ?n = "int (length (rows d))"
  have cs: "collect_starts d (commodity_indices d) = Inr starts"
    unfolding starts_def using commodity_indices_range[of _ d] by (intro collect_starts_eq) auto
  have ne: "starts \<noteq> []" using assms by (simp add: starts_def)
  have split: "split_mixed_tables d
                 = Inr (map (\<lambda>(s, e). iloc_slice d s e) (table_spans starts ?n))"
    by (simp add: split_mixed_tables_def assms cs)
  have spans: "table_spans starts ?n
                 = table_span starts ?n 0 # map (table_span starts ?n) [1..<length starts]"
    using ne by (simp add: table_spans_def upt_conv_Cons del: upt_Suc)
  have zero: "fst (table_span ts len 0) = 0" for ts len
    by (simp add: table_span_def)
  have hd_eq: "hd (map (\<lambda>(s, e). iloc_slice d s e) (table_spans starts ?n))
                 = iloc_slice d 0 (snd (table_span starts ?n 0))"
    using zero[of starts ?n] by (simp add: spans case_prod_beta)
  have "rows (iloc_slice d 0 e) = take (slice_bound (length (rows d)) e) (rows d)" for e
    by (simp add: iloc_slice_def slice_bound_def)
  then have pre: "prefix (rows (iloc_slice d 0 e)) (rows d)" for e
    by (simp add: take_is_prefix)
  show ?thesis
    apply (rule exI[of _ starts])
    apply (rule exI[of _ "map (\<lambda>(s, e). iloc_slice d s e) (table_spans starts ?n)"])
    using cs split hd_eq pre zero by (simp add: spans)
qed

theorem first_table_begins_at_row_0_witness:
  "commodity_indices two_tables \<noteq> []
   \<and> find_true_table_start two_tables 3 = Inr 2
   \<and> (\<exists>table_starts tables.
           collect_starts two_tables (commodity_indices two_tables) = Inr table_starts
           \<and> split_mixed_tables two_tables = Inr tables
           \<and> tables \<noteq> []
           \<and> hd tables = iloc_slice two_tables 0
                (snd (table_span table_starts (int (length (rows two_tables))) 0))
           \<and> prefix (rows (hd tables)) (rows two_tables)
           \<and> (\<forall>starts len. fst (table_span starts len 0) = 0))"
proof -
  have a: "commodity_indices two_tables \<noteq> []" by code_simp
  have b: "find_true_table_start two_tables 3 = Inr 2" by code_simp
  from a b first_table_begins_at_row_0[OF a] show ?thesis by blast
qed

text \<open>
  Claim C6. At an anchor row \<open>i\<close> of the grid, \<^verbatim>\<open>find_true_table_start\<close> reads the rows
  \<open>i, i - 1, ...\<close> down to \<open>i - 15\<close> and never a row before row 0. It returns the first
  row met on the way, that is the one nearest to \<open>i\<close>, whose cells joined by spaces and
  lowered contain \<open>psd table\<close>, \<open>trade matrix\<close> or \<open>prices table\<close>; when no row of the
  window does, it returns \<open>max 0 (i - 2)\<close>. It does not raise.
\<close>

theorem find_true_table_start_window:
  assumes "0 \<le> i" and "i < int (length (rows d))"
  shows "set (range_down i (max 0 (i - 15) - 1)) = {k. 0 \<le> k \<and> i - 15 \<le> k \<and> k \<le> i}
         \<and> ((\<exists>j. 0 \<le> j \<and> i - 15 \<le> j \<and> j \<le> i \<and> title_row d j
                  \<and> (\<forall>k. j < k \<and> k \<le> i \<longrightarrow> \<not> title_row d k)
                  \<and> find_true_table_start d i = Inr j)
              \<or> ((\<forall>k. 0 \<le> k \<and> i - 15 \<le> k \<and> k \<le> i \<longrightarrow> \<not> title_row d k)
                  \<and> find_true_table_start d i = Inr (max 0 (i - 2))))"
proof
  show "set (range_down i (max 0 (i - 15) - 1)) = {k. 0 \<le> k \<and> i - 15 \<le> k \<and> k \<le> i}"
    by (auto simp: set_range_down)
next
  have eq: "find_true_table_start d i = Inr (true_start d i)"
    using assms by (rule find_true_table_start_eq)
  from true_start_cases[of i d]
  show "(\<exists>j. 0 \<le> j \<and> i - 15 \<le> j \<and> j \<le> i \<and> title_row d j
                  \<and> (\<forall>k. j < k \<and> k \<le> i \<longrightarrow> \<not> title_row d k)
                  \<and> find_true_table_start d i = Inr j)
              \<or> ((\<forall>k. 0 \<le> k \<and> i - 15 \<le> k \<and> k \<le> i \<longrightarrow> \<not> title_row d k)
                  \<and> find_true_table_start d i = Inr (max 0 (i - 2)))"
  proof (elim disjE exE conjE)
    fix j
    assume "max 0 (i - 15) \<le> j" "j \<le> i" "title_row d j"
      "\<forall>k. j < k \<and> k \<le> i \<longrightarrow> \<not> title_row d k" "true_start d i = j"
    then show ?thesis by (intro disjI1 exI[of _ j]) (simp add: eq)
  next
    assume "\<forall>k. max 0 (i - 15) \<le> k \<and> k \<le> i \<longrightarrow> \<not> title_row d k"
      "true_start d i = max 0 (i - 2)"
    then show ?thesis by (intro disjI2) (simp add: eq)
  qed
qed

theorem find_true_table_start_window_witness:
  "(0::int) \<le> 6 \<and> 6 < int (length (rows two_tables))
   \<and> find_true_table_start two_tables 6 = Inr 5
   \<and> find_true_table_start two_tables 1 = Inr 0
   \<and> set (range_down 6 (max 0 (6 - 15) - 1)) = {k. 0 \<le> k \<and> 6 - 15 \<le> k \<and> k \<le> 6}
   \<and> ((\<exists>j. 0 \<le> j \<and> 6 - 15 \<le> j \<and> j \<le> 6 \<and> title_row two_tables j
            \<and> (\<forall>k. j < k \<and> k \<le> 6 \<longrightarrow> \<not> title_row two_tables k)
            \<and> find_true_table_start two_tables 6 = Inr j)
        \<or> ((\<forall>k. 0 \<le> k \<and> 6 - 15 \<le> k \<and> k \<le> 6 \<longrightarrow> \<not> title_row two_tables k)
            \<and> find_true_table_start two_tables 6 = Inr (max 0 (6 - 2))))"
proof -
  have a: "(0::int) \<le> 6" by simp
  have b: "6 < int (length (rows two_tables))" by (simp add: two_tables_def)
  have c: "find_true_table_start two_tables 6 = Inr 5" by code_simp
  have d: "find_true_table_start two_tables 1 = Inr 0" by code_simp
  from a b c d find_true_table_start_window[OF a b] show ?thesis by blast
qed

section \<open>The rice filter\<close>

text \<open>
  The filter reads the text of a frame through \<^verbatim>\<open>DataFrame.to_string()\<close>, a library
  rendering of the grid. The rendering is a parameter \<open>to_string\<close> of the functions below,
  and every theorem about them holds for every rendering. The functions have no error
  result: none of their statements raises on a frame of text cells (the row positions
  read are below the row count, and the division is guarded).

  The densities are Python floats in the source; here they are real numbers. A quotient
  of two integers is rounded correctly and so is the literal, so the comparison with
  \<^verbatim>\<open>0.02\<close> or \<^verbatim>\<open>0.08\<close> agrees with the exact one for every text shorter than
  \<open>10\<^sup>1\<^sup>5\<close> characters.
\<close>

text \<open>\<^verbatim>\<open>df.head(n)\<close>: the first \<open>n\<close> rows.\<close>

definition head_df :: "nat \<Rightarrow> dataframe \<Rightarrow> dataframe" where
  "head_df n d = d\<lparr>rows := take n (rows d)\<rparr>"

definition stop_words :: "string list" where
  "stop_words = ['' the '', '' is '', '' that '', '' are '', '' with '', '' they '', '' was '']"

definition is_narrative_text :: "(dataframe \<Rightarrow> string) \<Rightarrow> dataframe \<Rightarrow> bool" where
  "is_narrative_text to_string d =
     (let full_text = lower (to_string d);
          stop_word_count = length (filter (\<lambda>word. contains word full_text) stop_words)
      in if 2 \<le> stop_word_count then True else False)"

text \<open>A column of the frame, and \<^verbatim>\<open>Series.str.len().max()\<close>, which is \<^verbatim>\<open>NaN\<close> (here
  \<open>None\<close>) on a column without rows; \<^verbatim>\<open>NaN > 100\<close> is false.\<close>

definition column :: "dataframe \<Rightarrow> nat \<Rightarrow> string list" where
  "column d c = map (\<lambda>r. r ! c) (rows d)"

definition str_len_max :: "string list \<Rightarrow> nat option" where
  "str_len_max col = (if col = [] then None else Some (fold max (map length col) 0))"

text \<open>The first check of \<^verbatim>\<open>is_valid_data_structure\<close>: a cell of more than 100
  characters in one of the first five columns.\<close>

definition has_long_cell :: "dataframe \<Rightarrow> bool" where
  "has_long_cell d =
     list_ex (\<lambda>c. case str_len_max (column d c) of None \<Rightarrow> False | Some m \<Rightarrow> 100 < m)
       [0..<min 5 (ncols d)]"

definition is_valid_data_structure :: "(dataframe \<Rightarrow> string) \<Rightarrow> dataframe \<Rightarrow> bool" where
  "is_valid_data_structure to_string d =
     (if has_long_cell d then False
      else
        let text_blob = to_string d;
            total_chars = length text_blob;
            digit_count = length (filter isdigit text_blob)
        in if total_chars = 0 then False
           else
             let density = real digit_count / real total_chars
             in if density < 0.02 then False else True)"

text \<open>The row loop of \<^verbatim>\<open>is_strictly_rice_table\<close>: \<open>Some v\<close> is an early return of \<open>v\<close>,
  \<open>None\<close> the end of the loop.\<close>

fun label_scan :: "string list list \<Rightarrow> bool option" where
  "label_scan [] = None"
| "label_scan (r # rs) =
     (let row_text = lower (str_cat '' '' r) in
      if contains ''commodity'' row_text then
        (if contains ''rice'' row_text then Some True
         else if contains ''corn'' row_text \<or> contains ''wheat'' row_text then Some False
         else label_scan rs)
      else label_scan rs)"

text \<open>The checks after the label loop (narrative text, structure, content fallback).\<close>

definition inspect_unlabeled :: "(dataframe \<Rightarrow> string) \<Rightarrow> dataframe \<Rightarrow> string \<Rightarrow> bool" where
  "inspect_unlabeled to_string d header_chunk =
     (if is_narrative_text to_string d then False
      else if \<not> is_valid_data_structure to_string d then False
      else
        let has_rice = contains ''rice'' header_chunk;
            has_corn = contains ''corn'' header_chunk;
            has_wheat = contains ''wheat'' header_chunk
        in if has_rice \<and> \<not> (has_corn \<or> has_wheat) then True else False)"

definition is_strictly_rice_table :: "(dataframe \<Rightarrow> string) \<Rightarrow> dataframe \<Rightarrow> bool" where
  "is_strictly_rice_table to_string d =
     (let header_chunk = lower (to_string (head_df 20 d));
          label =
            (if contains ''commodity'' header_chunk
             then label_scan (map (\<lambda>i. rows d ! i) [0..<min 20 (length (rows d))])
             else None)
      in case label of
           Some verdict \<Rightarrow> verdict
         | None \<Rightarrow> inspect_unlabeled to_string d header_chunk)"

text \<open>A rendering for the closed examples: the cells of a row joined by spaces, the rows
  by newlines. A frame without cells has the empty text.\<close>

definition plain_text :: "dataframe \<Rightarrow> string" where
  "plain_text d = str_cat [CHR 0x0A] (map (str_cat '' '') (rows d))"

text \<open>A frame whose first label row names no category and whose second one does.\<close>

definition late_label :: dataframe where
  "late_label = \<lparr>ncols = 1, rows = [[''Commodity''], [''Commodity: Rice, not Corn'']]\<rparr>"

text \<open>The words of the claims: a row text with the grouping-key marker, a row text that
  names a category, the texts of the rows of the header window, and the share of digits
  in a text.\<close>

definition marker_row :: "string \<Rightarrow> bool" where
  "marker_row t = contains ''commodity'' t"

definition names_category :: "string \<Rightarrow> bool" where
  "names_category t = (contains ''rice'' t \<or> contains ''corn'' t \<or> contains ''wheat'' t)"

definition header_rows :: "dataframe \<Rightarrow> string list" where
  "header_rows d = map (\<lambda>r. lower (str_cat '' '' r)) (take 20 (rows d))"


section \<open>Classification\<close>

lemma window_rows: "map (\<lambda>i. xs ! i) [0..<min 20 (length xs)] = take 20 xs"
proof (cases "20 \<le> length xs")
  case True
  then show ?thesis by (simp add: min_def take_map[symmetric] map_nth flip: take_upt)
      (metis add_0 map_nth take_map take_upt)
next
  case False
  then show ?thesis by (simp add: min_def map_nth)
qed

lemma label_scan_find:
  "label_scan rs =
     (case List.find (\<lambda>t. marker_row t \<and> names_category t) (map (\<lambda>r. lower (str_cat '' '' r)) rs) of
        None \<Rightarrow> None
      | Some t \<Rightarrow> Some (contains ''rice'' t))"
  by (induction rs) (auto simp: marker_row_def names_category_def Let_def)

lemma find_first_marker:
  "List.find marker_row ts = Some t \<Longrightarrow> names_category t \<Longrightarrow>
   List.find (\<lambda>t. marker_row t \<and> names_category t) ts = Some t"
  by (induction ts) (auto split: if_splits)

text \<open>
  Claim C2, as amended. When the rendered header window contains \<open>commodity\<close>, the verdict
  is decided by the first row, among the first 20, whose own text contains \<open>commodity\<close>
  and one of \<open>rice\<close>, \<open>corn\<close>, \<open>wheat\<close>: the table is kept when that row contains
  \<open>rice\<close> and discarded otherwise; a label row that names none of them is passed over and
  the loop goes on to the later rows. Only when no row of the window is such a row does
  control reach the narrative-text check. In particular the table is kept when the first
  label row contains \<open>rice\<close>, and discarded when it contains \<open>corn\<close> or \<open>wheat\<close> and not
  \<open>rice\<close>.
\<close>

theorem label_decides:
  assumes "contains ''commodity'' (lower (to_string (head_df 20 d)))"
  shows "(\<forall>t. List.find (\<lambda>t. marker_row t \<and> names_category t) (header_rows d) = Some t
              \<longrightarrow> is_strictly_rice_table to_string d = contains ''rice'' t)
       \<and> (List.find (\<lambda>t. marker_row t \<and> names_category t) (header_rows d) = None
              \<longrightarrow> is_strictly_rice_table to_string d
                    = inspect_unlabeled to_string d (lower (to_string (head_df 20 d))))
       \<and> (\<forall>t. List.find marker_row (header_rows d) = Some t \<and> contains ''rice'' t
              \<longrightarrow> is_strictly_rice_table to_string d)
       \<and> (\<forall>t. List.find marker_row (header_rows d) = Some t \<and> \<not> contains ''rice'' t
                \<and> (contains ''corn'' t \<or> contains ''wheat'' t)
              \<longrightarrow> \<not> is_strictly_rice_table to_string d)"
proof -
  have scan: "is_strictly_rice_table to_string d =
      (case List.find (\<lambda>t. marker_row t \<and> names_category t) (header_rows d) of
         None \<Rightarrow> inspect_unlabeled to_string d (lower (to_string (head_df 20 d)))
       | Some t \<Rightarrow> contains ''rice'' t)"
    using assms
    by (simp add: is_strictly_rice_table_def window_rows label_scan_find header_rows_def
        split: option.splits)
  have first: "List.find (\<lambda>t. marker_row t \<and> names_category t) (header_rows d) = Some t"
    if "List.find marker_row (header_rows d) = Some t" "names_category t" for t
    using that by (rule find_first_marker)
  show ?thesis
    using first by (auto simp: scan names_category_def)
qed

theorem label_decides_witness:
  "contains ''commodity'' (lower (plain_text (head_df 20 late_label)))
   \<and> List.find (\<lambda>t. marker_row t \<and> names_category t) (header_rows late_label)
       = Some ''commodity: rice, not corn''
   \<and> is_strictly_rice_table plain_text late_label = contains ''rice'' ''commodity: rice, not corn''"
proof -
  have a: "contains ''commodity'' (lower (plain_text (head_df 20 late_label)))" by code_simp
  have b: "List.find (\<lambda>t. marker_row t \<and> names_category t) (header_rows late_label)
       = Some ''commodity: rice, not corn''" by code_simp
  from a b label_decides[of plain_text late_label] show ?thesis by blast
qed

text \<open>
  The claim as stated fails on \<open>late_label\<close>: its first label row names no category, yet
  the table is kept by the second label row, while the checks after the loop would
  discard it.
\<close>

theorem label_fall_through_counterexample:
  "contains ''commodity'' (lower (plain_text (head_df 20 late_label)))
   \<and> List.find marker_row (header_rows late_label) = Some ''commodity''
   \<and> \<not> names_category ''commodity''
   \<and> is_strictly_rice_table plain_text late_label
   \<and> \<not> inspect_unlabeled plain_text late_label (lower (plain_text (head_df 20 late_label)))"
  by code_simp










lemma degenerate_no_long_cell:
  "rows d = [] \<or> ncols d = 0 \<Longrightarrow> \<not> has_long_cell d"
  by (auto simp: has_long_cell_def column_def str_len_max_def list_ex_iff)





section \<open>The OCR table extractor\<close>

text \<open>\<^verbatim>\<open>text.replace(c, "")\<close>: every occurrence of the character removed.\<close>

definition remove_char :: "char \<Rightarrow> string \<Rightarrow> string" where
  "remove_char c s = filter (\<lambda>x. x \<noteq> c) s"

definition is_valid_table :: "(dataframe \<Rightarrow> string) \<Rightarrow> dataframe \<Rightarrow> bool" where
  "is_valid_table to_string d =
     (if length (rows d) < 2 \<or> ncols d < 2 then False
      else
        let text_blob = remove_char (CHR 0x0A) (remove_char CHR '' '' (to_string d));
            total_chars = length text_blob
        in if total_chars = 0 then False
           else
             let digit_count = length (filter isdigit text_blob)
             in 0.08 \<le> real digit_count / real total_chars)"

text \<open>
  A fragment is a dictionary with the keys \<^verbatim>\<open>page\<close> and \<^verbatim>\<open>df\<close>. \<^verbatim>\<open>stitch_tables\<close>
  assigns to the keys of the dictionaries it is given, so its model works on a store of
  dictionaries: the list it takes and the list it returns are lists of references, and it
  returns the store it leaves behind. The frames themselves are never changed in place
  (\<^verbatim>\<open>iloc\<close> and \<^verbatim>\<open>concat\<close> build new ones).
\<close>

record entry =
  page :: int
  df :: dataframe

type_synonym ref = nat
type_synonym store = "ref \<Rightarrow> entry"

text \<open>\<^verbatim>\<open>df.iloc[start:]\<close>, and \<^verbatim>\<open>pd.concat([a, b], ignore_index=True)\<close> of two frames
  with the same column labels: the rows of \<open>a\<close>, then the rows of \<open>b\<close>.\<close>

definition iloc_from :: "dataframe \<Rightarrow> int \<Rightarrow> dataframe" where
  "iloc_from d start = d\<lparr>rows := drop (slice_bound (length (rows d)) start) (rows d)\<rparr>"

definition pd_concat :: "dataframe \<Rightarrow> dataframe \<Rightarrow> dataframe" where
  "pd_concat a b = \<lparr>ncols = ncols a, rows = rows a @ rows b\<rparr>"

text \<open>The number of cells of the new first row that equal the cell of the old first row
  at their position; \<^verbatim>\<open>row_0_old[i]\<close> raises when the old row is the shorter one.\<close>

definition match_count :: "string list \<Rightarrow> string list \<Rightarrow> error + nat" where
  "match_count row_0_new row_0_old =
     (if length row_0_old < length row_0_new then Inl IndexError
      else Inr (length (filter (\<lambda>(i, x). x = row_0_old ! i) (enumerate 0 row_0_new))))"

text \<open>One round of the loop of \<^verbatim>\<open>stitch_tables\<close>, on the store, the list \<^verbatim>\<open>stitched\<close>
  and the reference \<^verbatim>\<open>current_entry\<close>.\<close>

definition stitch_step :: "store \<times> ref list \<times> ref \<Rightarrow> ref \<Rightarrow> error + store \<times> ref list \<times> ref" where
  "stitch_step st next_entry =
     (case st of (s, stitched, current_entry) \<Rightarrow>
        let curr_df = df (s current_entry);
            next_df = df (s next_entry);
            is_consecutive = (page (s next_entry) = page (s current_entry) + 1);
            is_same_width = (ncols curr_df = ncols next_df)
        in if is_consecutive \<and> is_same_width then
             (case iloc next_df 0 of
                Inl e \<Rightarrow> Inl e
              | Inr row_0_new \<Rightarrow>
             (case iloc curr_df 0 of
                Inl e \<Rightarrow> Inl e
              | Inr row_0_old \<Rightarrow>
             (case match_count row_0_new row_0_old of
                Inl e \<Rightarrow> Inl e
              | Inr n \<Rightarrow>
                  let next_df = (if real (length row_0_new) / 2 < real n
                                 then iloc_from next_df 1 else next_df);
                      merged_df = pd_concat curr_df next_df;
                      s = s(current_entry := (s current_entry)\<lparr>df := merged_df\<rparr>);
                      s = s(current_entry := (s current_entry)\<lparr>page := page (s next_entry)\<rparr>)
                  in Inr (s, stitched, current_entry))))
           else Inr (s, stitched @ [current_entry], next_entry))"

fun stitch_loop :: "store \<times> ref list \<times> ref \<Rightarrow> ref list \<Rightarrow> error + store \<times> ref list \<times> ref" where
  "stitch_loop st [] = Inr st"
| "stitch_loop st (next_entry # rest) =
     (case stitch_step st next_entry of
        Inl e \<Rightarrow> Inl e
      | Inr st' \<Rightarrow> stitch_loop st' rest)"

definition stitch_tables :: "store \<Rightarrow> ref list \<Rightarrow> error + store \<times> ref list" where
  "stitch_tables s table_list =
     (if table_list = [] then Inr (s, [])
      else case stitch_loop (s, [], hd table_list) (tl table_list) of
             Inl e \<Rightarrow> Inl e
           | Inr (s', stitched, current_entry) \<Rightarrow> Inr (s', stitched @ [current_entry]))"

text \<open>Part A of \<^verbatim>\<open>process_pdf\<close>: the tables of every page, cleaned (\<open>cleanup\<close> stands
  for the two clean-up statements), are kept when \<^verbatim>\<open>is_valid_table\<close> accepts them. Part
  B stitches the fresh dictionaries, here the references \<open>0, 1, ...\<close> of a new store.\<close>

definition collect_raw_tables ::
  "(dataframe \<Rightarrow> string) \<Rightarrow> (dataframe \<Rightarrow> dataframe) \<Rightarrow> (int \<times> dataframe list) list \<Rightarrow> entry list" where
  "collect_raw_tables to_string cleanup extracted_tables =
     concat (map (\<lambda>(page_idx, tables).
                    map (\<lambda>t. \<lparr>page = page_idx + 1, df = cleanup t\<rparr>)
                      (filter (\<lambda>t. is_valid_table to_string (cleanup t)) tables))
               extracted_tables)"

definition store_of :: "entry list \<Rightarrow> store" where
  "store_of es r = (if r < length es then es ! r else \<lparr>page = 0, df = \<lparr>ncols = 0, rows = []\<rparr>\<rparr>)"

definition stitch_raw_tables ::
  "(dataframe \<Rightarrow> string) \<Rightarrow> (dataframe \<Rightarrow> dataframe) \<Rightarrow> (int \<times> dataframe list) list
     \<Rightarrow> error + entry list" where
  "stitch_raw_tables to_string cleanup extracted_tables =
     (let raw_tables = collect_raw_tables to_string cleanup extracted_tables in
      case stitch_tables (store_of raw_tables) [0..<length raw_tables] of
        Inl e \<Rightarrow> Inl e
      | Inr (s, final_tables) \<Rightarrow> Inr (map s final_tables))"

section \<open>The PDF scraper\<close>

definition are_tables_mergeable :: "dataframe \<Rightarrow> dataframe \<Rightarrow> int \<Rightarrow> int \<Rightarrow> bool" where
  "are_tables_mergeable prev_df curr_df prev_page curr_page =
     (if curr_page \<noteq> prev_page + 1 then False
      else if ncols prev_df \<noteq> ncols curr_df then False
      else True)"

text \<open>One round of the stitching loop of \<^verbatim>\<open>process_pdfs_with_stitching\<close>, on the list
  \<^verbatim>\<open>final_tables\<close> and the dictionary \<^verbatim>\<open>current_merged\<close>; a merge builds a new
  dictionary.\<close>

definition merge_step :: "dataframe list \<times> entry \<Rightarrow> entry \<Rightarrow> dataframe list \<times> entry" where
  "merge_step st next_piece =
     (case st of (final_tables, current_merged) \<Rightarrow>
        if are_tables_mergeable (df current_merged) (df next_piece)
             (page current_merged) (page next_piece)
        then
          let df_prev = df current_merged;
              df_next = df next_piece;
              merged_df = pd_concat df_prev df_next
          in (final_tables, \<lparr>page = page next_piece, df = merged_df\<rparr>)
        else (final_tables @ [df current_merged], next_piece))"

definition stitch_extracted_pieces :: "entry list \<Rightarrow> dataframe list" where
  "stitch_extracted_pieces extracted_pieces =
     (if extracted_pieces = [] then []
      else case foldl merge_step ([], hd extracted_pieces) (tl extracted_pieces) of
             (final_tables, current_merged) \<Rightarrow> final_tables @ [df current_merged])"

text \<open>Two pages that repeat the header row, a page of data rows only, a page without
  digits, and stores of two fragments on pages 1 and 2, and on pages 3 and 5.\<close>

definition page_one :: dataframe where
  "page_one = \<lparr>ncols = 3, rows = [[''Country'', ''Commodity'', ''Year''], [''Brazil'', ''Rice'', ''2023'']]\<rparr>"

definition page_two :: dataframe where
  "page_two = \<lparr>ncols = 3, rows = [[''Country'', ''Commodity'', ''Year''], [''Chile'', ''Rice'', ''2024'']]\<rparr>"



definition two_pages :: store where
  "two_pages = store_of [\<lparr>page = 1, df = page_one\<rparr>, \<lparr>page = 2, df = page_two\<rparr>]"







section \<open>Stitching\<close>


















text \<open>
  Claim C7 fails on \<^verbatim>\<open>stitch_tables\<close>. On two fragments of the same width on pages 1
  and 2 the call returns the first dictionary, which it has overwritten: its page is now 2
  and its frame the merged one. The second dictionary is unchanged.
\<close>

theorem stitch_tables_overwrites_first_fragment:
  "(case stitch_tables two_pages [0, 1] of
      Inl e \<Rightarrow> False
    | Inr (s, tables) \<Rightarrow>
        tables = [0] \<and> page (s 0) = 2 \<and> length (rows (df (s 0))) = 3 \<and> s 1 = two_pages 1)
   \<and> page (two_pages 0) = 1 \<and> length (rows (df (two_pages 0))) = 2"
  by code_simp

text \<open>
  Claim C4 fails on the stitching loop of \<^verbatim>\<open>PDFScraper.py\<close>. It merges two pages whose
  first rows are equal and keeps both header rows, while \<^verbatim>\<open>stitch_tables\<close> drops the
  second one on the same fragments (lemma \<open>stitch_step_merge\<close>: the first row is dropped
  exactly when more than half of its cells match).
\<close>

theorem pdf_stitching_keeps_repeated_header:
  "stitch_extracted_pieces [\<lparr>page = 1, df = page_one\<rparr>, \<lparr>page = 2, df = page_two\<rparr>]
     = [\<lparr>ncols = 3, rows = rows page_one @ rows page_two\<rparr>]
   \<and> hd (rows page_two) = hd (rows page_one)
   \<and> (case stitch_tables two_pages [0, 1] of
        Inl e \<Rightarrow> False
      | Inr (s, tables) \<Rightarrow> map (\<lambda>r. rows (df (s r))) tables = [rows page_one @ tl (rows page_two)])"
  by code_simp


end
